theory Spec2Isabelle
  imports Complex_Main "HOL-Library.Log_Nat"
begin

section \<open>Double-precision arithmetic\<close>

text \<open>
  A JavaScript number is an IEEE 754 double. A finite double is kept here as the real
  number it denotes, and an arithmetic operation is the exact operation followed by
  rounding to the nearest double, ties to the even significand. \<open>binade x\<close> is the
  exponent of the binade of \<open>x\<close>, never below that of the subnormal range, and
  \<open>quantum x\<close> is the spacing of the doubles there (53 bits of precision).
  \<open>is_double x\<close> says that \<open>x\<close> is a finite double. Overflow to \<open>Infinity\<close> and
  \<open>NaN\<close> are outside the model.
\<close>

definition binade :: "real \<Rightarrow> int" where
  "binade x = max (- 1022) (int (floorlog 2 (nat \<lfloor>\<bar>x\<bar> * 2 ^ 1022\<rfloor>)) - 1023)"

definition quantum :: "real \<Rightarrow> real" where
  "quantum x = 2 powi (binade x - 52)"

definition round_magnitude :: "real \<Rightarrow> real" where
  "round_magnitude y =
     (let q = quantum y; n = y / q; f = \<lfloor>n\<rfloor>
      in if 2 * (n - of_int f) < 1 \<or> (2 * (n - of_int f) = 1 \<and> even f)
         then of_int f * q else (of_int f + 1) * q)"

definition round_double :: "real \<Rightarrow> real" where
  "round_double x = (if x < 0 then - round_magnitude (- x) else round_magnitude x)"

definition is_double :: "real \<Rightarrow> bool" where
  "is_double x = (\<bar>x\<bar> < 2 ^ 1024 \<and> of_int \<lfloor>\<bar>x\<bar> / quantum x\<rfloor> = \<bar>x\<bar> / quantum x)"

text \<open>The operators \<open>*\<close> and \<open>+\<close> on numbers.\<close>

definition js_times :: "real \<Rightarrow> real \<Rightarrow> real" where
  "js_times a b = round_double (a * b)"

definition js_plus :: "real \<Rightarrow> real \<Rightarrow> real" where
  "js_plus a b = round_double (a + b)"

section \<open>Retry with exponential backoff (utils/retry)\<close>

text \<open>
  An error thrown by a request carries an optional response; the retry loop only reads
  \<open>error.response?.status\<close>, which is \<open>None\<close> when there is no response (a
  network failure), and its message; \<open>config_retry\<close> is the \<open>_retry\<close> flag of the
  request configuration the error carries (\<open>error.config._retry\<close>).
\<close>

record http_error =
  status :: "int option"
  message :: string
  config_retry :: bool

text \<open>The settled value of the promise returned by one call of the request function.\<close>

datatype 'a outcome = Fulfilled 'a | Rejected http_error

text \<open>
  The test that makes the loop rethrow at once:
  \<open>status >= 400 && status < 500 && status !== 429\<close>; a missing status compares false.
\<close>

definition client_error :: "http_error \<Rightarrow> bool" where
  "client_error error =
     (case status error of
        None \<Rightarrow> False
      | Some c \<Rightarrow> c \<ge> 400 \<and> c < 500 \<and> c \<noteq> 429)"

text \<open>
  \<open>baseDelay * Math.pow(2, attempt) + Math.random() * 1000\<close>, where \<open>r\<close> is the value
  of \<open>Math.random()\<close>; a power of two is a double, so \<open>Math.pow(2, attempt)\<close> is exact
  as long as it is finite.
\<close>

definition backoff_delay :: "real \<Rightarrow> nat \<Rightarrow> real \<Rightarrow> real" where
  "backoff_delay baseDelay attempt r =
     js_plus (js_times baseDelay (2 ^ attempt)) (js_times r 1000)"

text \<open>
  What one call of \<open>retryWithBackoff\<close> did: the value returned (\<open>Inr\<close>) or thrown
  (\<open>Inl\<close>; \<open>None\<close> is the \<open>undefined\<close> that \<open>lastError\<close> holds before any
  attempt), the number of calls of the request function, the delays waited in order, and
  the state of the world the request function left behind.
\<close>

record ('a, 's) retry_run =
  result :: "http_error option + 'a"
  attempts :: nat
  delays :: "real list"
  final :: 's

text \<open>
  The \<open>for\<close> loop of \<open>retryWithBackoff\<close>. The request function \<open>fn\<close> acts on a
  world \<open>'s\<close>; \<open>rnd k\<close> is the value \<open>Math.random()\<close> returns in the iteration
  with \<open>attempt = k\<close>; \<open>maxRetries\<close> is an integer of either sign (the defaults are
  \<open>maxRetries = 3\<close> and \<open>baseDelay = 1000\<close>).
\<close>

function retry_loop ::
  "('s \<Rightarrow> 'a outcome \<times> 's) \<Rightarrow> int \<Rightarrow> real \<Rightarrow> (nat \<Rightarrow> real) \<Rightarrow>
   nat \<Rightarrow> http_error option \<Rightarrow> nat \<Rightarrow> real list \<Rightarrow> 's \<Rightarrow> ('a, 's) retry_run" where
  "retry_loop fn maxRetries baseDelay rnd attempt lastError calls ds s =
     (if int attempt \<le> maxRetries then
        (case fn s of
           (Fulfilled v, s') \<Rightarrow>
             \<lparr>result = Inr v, attempts = Suc calls, delays = ds, final = s'\<rparr>
         | (Rejected error, s') \<Rightarrow>
             if client_error error then
               \<lparr>result = Inl (Some error), attempts = Suc calls, delays = ds, final = s'\<rparr>
             else if int attempt = maxRetries then
               \<lparr>result = Inl (Some error), attempts = Suc calls, delays = ds, final = s'\<rparr>
             else
               retry_loop fn maxRetries baseDelay rnd (Suc attempt) (Some error) (Suc calls)
                 (ds @ [backoff_delay baseDelay attempt (rnd attempt)]) s')
      else \<lparr>result = Inl lastError, attempts = calls, delays = ds, final = s\<rparr>)"
  by pat_completeness auto
termination
  by (relation "measure (\<lambda>(fn, maxRetries, baseDelay, rnd, attempt, rest).
        nat (maxRetries + 1 - int attempt))") auto

declare retry_loop.simps [simp del]

definition retryWithBackoff ::
  "('s \<Rightarrow> 'a outcome \<times> 's) \<Rightarrow> int \<Rightarrow> real \<Rightarrow> (nat \<Rightarrow> real) \<Rightarrow> 's \<Rightarrow> ('a, 's) retry_run" where
  "retryWithBackoff fn maxRetries baseDelay rnd s =
     retry_loop fn maxRetries baseDelay rnd 0 None 0 [] s"

text \<open>The world a request function has gone through after \<open>n\<close> calls.\<close>

fun world_after :: "('s \<Rightarrow> 'a outcome \<times> 's) \<Rightarrow> nat \<Rightarrow> 's \<Rightarrow> 's" where
  "world_after fn 0 s = s"
| "world_after fn (Suc n) s = world_after fn n (snd (fn s))"

section \<open>The HTTP client and its interceptors (services/httpClient)\<close>

text \<open>
  What the server answers to one request: nothing (connection failure, timeout), or a
  response with a status code and a body.
\<close>

datatype reply = NoResponse | Response int string

text \<open>
  The effects of the client on the browser, in the order they happen: a request sent with
  its \<open>Authorization\<close> header, the reply received, \<open>localStorage.removeItem\<close> of the
  token key, and an assignment to \<open>window.location.href\<close>.
\<close>

datatype effect =
    SendRequest "string option"
  | Receive reply
  | RemoveToken
  | Redirect string

record browser =
  token :: "string option"
  pathname :: string
  sent :: nat
  trace :: "effect list"

text \<open>The request interceptor: a truthy stored token is attached as a bearer token.\<close>

definition request_interceptor :: "browser \<Rightarrow> string option" where
  "request_interceptor w =
     (case token w of
        None \<Rightarrow> None
      | Some t \<Rightarrow> if t = [] then None else Some (''Bearer '' @ t))"

text \<open>
  The rejection handler of the response interceptor. On a 401 whose request is not marked
  \<open>_retry\<close> it marks it, removes the token, redirects unless already on the login page,
  and rejects; otherwise it rewrites the message and rejects.
\<close>

definition response_error_interceptor :: "http_error \<Rightarrow> browser \<Rightarrow> http_error \<times> browser" where
  "response_error_interceptor error w =
     (if status error = Some 401 \<and> \<not> config_retry error then
        (error\<lparr>config_retry := True\<rparr>,
         w\<lparr>token := None,
           trace := trace w @ RemoveToken #
             (if pathname w \<noteq> ''/login'' then [Redirect ''/login''] else [])\<rparr>)
      else
        (let e1 = (if status error = None
                   then error\<lparr>message := ''Network error. Please check your internet connection.''\<rparr>
                   else error);
             e2 = (case status e1 of
                     Some c \<Rightarrow> if c \<ge> 500
                       then e1\<lparr>message := ''Server error. Please try again later.''\<rparr> else e1
                   | None \<Rightarrow> e1);
             e3 = (if status e2 = Some 429
                   then e2\<lparr>message := ''Too many requests. Please wait a moment and try again.''\<rparr>
                   else e2)
         in (e3, w)))"

text \<open>
  One request through the client. The server is an oracle: \<open>server k auth\<close> is its reply
  to the \<open>k\<close>-th request of the session, sent with header \<open>auth\<close>. Each request has a
  fresh configuration, so \<open>_retry\<close> starts unset; a status in 200..299 fulfils the
  promise, every other outcome goes through the rejection handler.
\<close>

definition httpClient_get ::
  "(nat \<Rightarrow> string option \<Rightarrow> reply) \<Rightarrow> browser \<Rightarrow> (int \<times> string) outcome \<times> browser" where
  "httpClient_get server w =
     (let auth = request_interceptor w;
          rep = server (sent w) auth;
          w1 = w\<lparr>sent := Suc (sent w), trace := trace w @ [SendRequest auth, Receive rep]\<rparr>
      in case rep of
           Response c body \<Rightarrow>
             if 200 \<le> c \<and> c < 300 then (Fulfilled (c, body), w1)
             else (case response_error_interceptor
                          \<lparr>status = Some c, message = ''Request failed'', config_retry = False\<rparr> w1
                   of (e, w2) \<Rightarrow> (Rejected e, w2))
         | NoResponse \<Rightarrow>
             (case response_error_interceptor
                     \<lparr>status = None, message = ''Network Error'', config_retry = False\<rparr> w1
              of (e, w2) \<Rightarrow> (Rejected e, w2)))"

text \<open>
  The effects one call added to the trace, the number of 401 replies among them, and the
  number of token removals among them.
\<close>

definition new_effects :: "browser \<Rightarrow> browser \<Rightarrow> effect list" where
  "new_effects w w' = drop (length (trace w)) (trace w')"

fun is_401 :: "effect \<Rightarrow> bool" where
  "is_401 (Receive (Response c body)) = (c = 401)"
| "is_401 _ = False"

definition saw_401 :: "effect list \<Rightarrow> nat" where
  "saw_401 es = length (filter is_401 es)"

definition invalidations :: "effect list \<Rightarrow> nat" where
  "invalidations es = count_list es RemoveToken"

subsection \<open>Concrete requests and servers\<close>

definition server_error :: http_error where
  "server_error = \<lparr>status = Some 500, message = ''Internal Server Error'', config_retry = False\<rparr>"

definition not_found :: http_error where
  "not_found = \<lparr>status = Some 404, message = ''Not Found'', config_retry = False\<rparr>"

definition unavailable :: http_error where
  "unavailable = \<lparr>status = Some 503, message = ''Service Unavailable'', config_retry = False\<rparr>"

definition always_failing :: "unit \<Rightarrow> string outcome \<times> unit" where
  "always_failing u = (Rejected server_error, ())"

definition missing_page :: "unit \<Rightarrow> string outcome \<times> unit" where
  "missing_page u = (Rejected not_found, ())"

definition flaky :: "nat \<Rightarrow> string outcome \<times> nat" where
  "flaky n = (if n < 2 then Rejected unavailable else Fulfilled ''ok'', Suc n)"

definition no_jitter :: "nat \<Rightarrow> real" where
  "no_jitter k = 0"

text \<open>The largest multiple of \<open>2 ^ - 52\<close> below 1, at every draw.\<close>

definition top_jitter :: "nat \<Rightarrow> real" where
  "top_jitter k = 1 - 1 / 2 ^ 52"

definition expiring_server :: "nat \<Rightarrow> string option \<Rightarrow> reply" where
  "expiring_server k auth = (if k < 2 then Response 500 ''busy'' else Response 401 ''expired'')"

definition logged_in :: browser where
  "logged_in = \<lparr>token = Some ''t0'', pathname = ''/dashboard'', sent = 0, trace = []\<rparr>"

section \<open>Token validity (services/authService)\<close>

text \<open>
  What \<open>JSON.parse(atob(token.split('.')[1]))\<close> followed by reading \<open>.exp\<close> gives for a
  stored token: an exception anywhere in the \<open>try\<close> block, a payload whose \<open>exp\<close> is
  absent or not a number (every comparison with it is false), or a numeric expiry in
  seconds. The decoding itself is the platform's and is a parameter.
\<close>

datatype token_data = Throws | NoExp | Exp real

text \<open>
  \<open>isAuthenticated()\<close>: the stored token must be truthy and decode, and its expiry must be
  greater than \<open>currentTime\<close>, the value of \<open>Date.now() / 1000\<close>, in seconds; a
  token that fails to decode is removed.
\<close>

definition isAuthenticated ::
  "(string \<Rightarrow> token_data) \<Rightarrow> real \<Rightarrow> browser \<Rightarrow> bool \<times> browser" where
  "isAuthenticated decode currentTime w =
     (case token w of
        None \<Rightarrow> (False, w)
      | Some t \<Rightarrow>
          if t = [] then (False, w)
          else (case decode t of
                  Throws \<Rightarrow> (False, w\<lparr>token := None, trace := trace w @ [RemoveToken]\<rparr>)
                | NoExp \<Rightarrow> (False, w)
                | Exp e \<Rightarrow> (e > currentTime, w)))"



section \<open>The dashboard's data (components/SatelliteTrackingDashboard)\<close>

record position =
  latitude :: real
  longitude :: real
  altitude :: real
  velocity :: real

record favorite =
  name :: string
  norad_id :: int
  current_position :: "position option"
  added_at :: string

record pass =
  satellite_name :: string
  start_time :: string
  duration :: real
  max_elevation :: real
  visibility :: string

text \<open>
  The component's state variables that the data functions write. Times are the time values
  of \<open>Date\<close> objects, in milliseconds. The timer handle \<open>refreshInterval\<close> is kept in
  the scheduler's state below.
\<close>

record dashboard =
  favorites :: "favorite list"
  passes :: "pass list"
  loading :: bool
  passesLoading :: bool
  refreshing :: bool
  error :: "string option"
  backendHealthy :: bool
  lastUpdate :: "int option"
  autoRefresh :: bool

text \<open>The requests a data function issues, in order.\<close>

datatype request = GetHealth | GetFavorites | GetUpcomingPasses

text \<open>
  \<open>checkBackendHealth\<close>, on the settled request to \<open>/health\<close>: the pair is
  \<open>response.status\<close> and \<open>response.data.status\<close>; a rejected request is caught and
  gives \<open>false\<close>.
\<close>

definition checkBackendHealth :: "(int \<times> string) outcome \<Rightarrow> bool" where
  "checkBackendHealth response =
     (case response of
        Fulfilled (code, data_status) \<Rightarrow> code = 200 \<and> data_status = ''healthy''
      | Rejected e \<Rightarrow> False)"

text \<open>
  \<open>loadDashboardData\<close>. The settled results of the three requests are inputs (the
  services behind them are the environment); the returned list holds the requests that
  were really issued. \<open>Promise.allSettled\<close> never rejects, so the \<open>catch\<close> branch is
  not reached; \<open>finally\<close> clears \<open>loading\<close> on both paths.
\<close>

definition loadDashboardData ::
  "(int \<times> string) outcome \<Rightarrow> favorite list outcome \<Rightarrow> pass list outcome \<Rightarrow> int \<Rightarrow>
   dashboard \<Rightarrow> dashboard \<times> request list" where
  "loadDashboardData health favoritesData passesData now st =
     (let st1 = st\<lparr>loading := True, error := None\<rparr>;
          isHealthy = checkBackendHealth health;
          st2 = st1\<lparr>backendHealthy := isHealthy\<rparr>
      in if \<not> isHealthy then
           (st2\<lparr>error := Some ''Backend service is not available. Please check if the server is running.'',
                favorites := [], passes := [], loading := False\<rparr>,
            [GetHealth])
         else
           (let st3 = (case favoritesData of
                         Fulfilled v \<Rightarrow> st2\<lparr>favorites := v\<rparr>
                       | Rejected reason \<Rightarrow> st2\<lparr>favorites := []\<rparr>);
                st4 = (case passesData of
                         Fulfilled v \<Rightarrow> st3\<lparr>passes := v\<rparr>
                       | Rejected reason \<Rightarrow> st3\<lparr>passes := []\<rparr>)
            in (st4\<lparr>lastUpdate := Some now, loading := False\<rparr>,
                [GetHealth, GetFavorites, GetUpcomingPasses])))"

text \<open>
  \<open>refreshPositions\<close>, in two halves around its \<open>await\<close>. \<open>seen\<close> is the value of
  \<open>favorites\<close> in the closure that runs: the function reads it, while the setters act on
  the current state. The first half returns \<open>None\<close> when it returns before the
  \<open>try\<close>, and the state with \<open>refreshing\<close> set when the request has been issued.
\<close>

definition refreshPositions_begin :: "favorite list \<Rightarrow> dashboard \<Rightarrow> dashboard option" where
  "refreshPositions_begin seen st =
     (if length seen = 0 then None else Some (st\<lparr>refreshing := True\<rparr>))"

definition refreshPositions_resume :: "favorite list outcome \<Rightarrow> int \<Rightarrow> dashboard \<Rightarrow> dashboard" where
  "refreshPositions_resume updatedFavorites now st =
     (case updatedFavorites of
        Fulfilled v \<Rightarrow> st\<lparr>favorites := v, lastUpdate := Some now, refreshing := False\<rparr>
      | Rejected err \<Rightarrow> st\<lparr>refreshing := False\<rparr>)"

definition refreshPositions ::
  "favorite list \<Rightarrow> favorite list outcome \<Rightarrow> int \<Rightarrow> dashboard \<Rightarrow> dashboard \<times> request list" where
  "refreshPositions seen updatedFavorites now st =
     (case refreshPositions_begin seen st of
        None \<Rightarrow> (st, [])
      | Some st1 \<Rightarrow> (refreshPositions_resume updatedFavorites now st1, [GetFavorites]))"

section \<open>The auto-refresh timer and the refresh button\<close>

text \<open>
  The component between events. \<open>timer\<close> is the armed interval, as the \<open>favorites\<close>
  value its callback closes over: the effect that arms it depends on \<open>autoRefresh\<close>
  only, so the callback keeps the \<open>refreshPositions\<close> of the render in which the effect
  ran. \<open>inflight\<close> counts the calls of \<open>refreshPositions\<close> suspended at their
  \<open>await\<close>; \<open>load_pending\<close> says that the initial \<open>loadDashboardData\<close> has not
  finished.
\<close>

record scheduler =
  dash :: dashboard
  timer :: "favorite list option"
  inflight :: nat
  load_pending :: bool

datatype event =
    Tick
  | Click
  | Toggle
  | Loaded "(int \<times> string) outcome" "favorite list outcome" "pass list outcome" int
  | Finish "favorite list outcome" int

text \<open>Entering \<open>refreshPositions\<close> with a given closure value.\<close>

definition enter_refresh :: "favorite list \<Rightarrow> scheduler \<Rightarrow> scheduler" where
  "enter_refresh seen s =
     (case refreshPositions_begin seen (dash s) of
        None \<Rightarrow> s
      | Some d \<Rightarrow> s\<lparr>dash := d, inflight := Suc (inflight s)\<rparr>)"

text \<open>
  One event. A tick runs the callback of the armed interval. The button is rendered only
  when \<open>loading\<close> is false and is disabled while \<open>refreshing\<close> is true; its handler is
  the one of the latest render. Toggling the checkbox flips \<open>autoRefresh\<close> and re-runs
  the effect: the old interval is cleared, and a new one is armed when the flag is now
  true. The initial load and the end of a pending request apply their state updates.
\<close>

fun step :: "event \<Rightarrow> scheduler \<Rightarrow> scheduler" where
  "step Tick s = (case timer s of None \<Rightarrow> s | Some seen \<Rightarrow> enter_refresh seen s)"
| "step Click s =
     (if loading (dash s) \<or> refreshing (dash s) then s
      else enter_refresh (favorites (dash s)) s)"
| "step Toggle s =
     s\<lparr>dash := (dash s)\<lparr>autoRefresh := \<not> autoRefresh (dash s)\<rparr>,
       timer := (if autoRefresh (dash s) then None else Some (favorites (dash s)))\<rparr>"
| "step (Loaded health favoritesData passesData now) s =
     (if load_pending s
      then s\<lparr>dash := fst (loadDashboardData health favoritesData passesData now (dash s)),
             load_pending := False\<rparr>
      else s)"
| "step (Finish updatedFavorites now) s =
     (if inflight s = 0 then s
      else s\<lparr>dash := refreshPositions_resume updatedFavorites now (dash s),
             inflight := inflight s - 1\<rparr>)"

definition run :: "event list \<Rightarrow> scheduler \<Rightarrow> scheduler" where
  "run events s = foldl (\<lambda>s e. step e s) s events"

text \<open>
  The component after mounting: the initial values of the state variables, the interval
  armed by the first render (whose \<open>favorites\<close> is empty), the initial load under way.
\<close>

definition mounted :: scheduler where
  "mounted =
     \<lparr>dash = \<lparr>favorites = [], passes = [], loading = True, passesLoading = False,
              refreshing = False, error = None, backendHealthy = True, lastUpdate = None,
              autoRefresh = True\<rparr>,
      timer = Some [], inflight = 0, load_pending = True\<rparr>"

subsection \<open>Concrete data\<close>

definition iss :: favorite where
  "iss = \<lparr>name = ''ISS'', norad_id = 25544, current_position = None,
          added_at = ''2024-01-01T00:00:00Z''\<rparr>"

definition low_pass :: pass where
  "low_pass = \<lparr>satellite_name = ''ISS'', start_time = ''2024-01-01T10:00:00Z'',
               duration = 300, max_elevation = 15, visibility = ''visible''\<rparr>"

definition high_pass :: pass where
  "high_pass = \<lparr>satellite_name = ''ISS'', start_time = ''2024-01-01T12:00:00Z'',
                duration = 600, max_elevation = 45, visibility = ''visible''\<rparr>"

definition healthy :: "(int \<times> string) outcome" where
  "healthy = Fulfilled (200, ''healthy'')"

definition degraded :: "(int \<times> string) outcome" where
  "degraded = Fulfilled (200, ''degraded'')"

definition stale :: dashboard where
  "stale =
     \<lparr>favorites = [iss], passes = [low_pass], loading = False, passesLoading = False,
      refreshing = False, error = None, backendHealthy = True, lastUpdate = Some 1000,
      autoRefresh = True\<rparr>"

text \<open>
  A session: the load brings one favorite, the user switches auto-refresh off and on
  again, then presses the refresh button.
\<close>

definition rearmed_and_clicked :: "event list" where
  "rearmed_and_clicked =
     [Loaded healthy (Fulfilled [iss]) (Fulfilled []) 1000, Toggle, Toggle, Click]"

text \<open>
  The same session, continued: the request started by the button comes back with no
  favorites left (the user has removed the last one elsewhere).
\<close>

definition emptied_behind_timer :: "event list" where
  "emptied_behind_timer = rearmed_and_clicked @ [Finish (Fulfilled []) 2000]"

section \<open>The derived views (filteredAndSortedSatellites, filteredAndSortedPasses)\<close>

text \<open>
  The built-ins of the JavaScript runtime that the two functions call are parameters:
  \<open>String.prototype.localeCompare\<close>, the time value of \<open>new Date(s)\<close> (\<open>None\<close> for
  an invalid date), \<open>parseInt\<close> (\<open>None\<close> for \<open>NaN\<close>),
  \<open>String.prototype.toLowerCase\<close> and \<open>Number.prototype.toString\<close>.
\<close>

record platform =
  localeCompare :: "string \<Rightarrow> string \<Rightarrow> int"
  Date_value :: "string \<Rightarrow> real option"
  parseInt :: "string \<Rightarrow> real option"
  toLowerCase :: "string \<Rightarrow> string"
  toString :: "int \<Rightarrow> string"

text \<open>The filtering and sorting state of the component.\<close>

record view =
  satelliteFilter :: string
  satelliteSort :: string
  passFilter :: string
  passSort :: string
  showOnlyVisible :: bool

text \<open>\<open>s.String_includes(t)\<close>: \<open>t\<close> occurs in \<open>s\<close> as a contiguous substring.\<close>

fun String_includes :: "string \<Rightarrow> string \<Rightarrow> bool" where
  "String_includes [] t = (t = [])"
| "String_includes (c # s) t = (take (length t) (c # s) = t \<or> String_includes s t)"

text \<open>
  Arrays are objects: a state variable holds a reference, and two variables can hold the
  same one. The store is the list of all arrays, a reference is an index into it.
  \<open>filter\<close> allocates a new array and leaves its receiver alone; \<open>sort\<close> reorders its
  receiver in place and returns the same reference.
\<close>

type_synonym addr = nat

type_synonym 'a store = "'a list list"

text \<open>
  \<open>Array.prototype.sort\<close> with a comparator is stable; for a comparator that is a
  consistent ordering its result is that of the stable insertion sort below, which puts
  \<open>x\<close> before the first \<open>y\<close> with \<open>cmp x y \<le> 0\<close>. Only the sign of the
  comparator's result is used; a rounded difference of two doubles has the sign of the
  exact difference, so the comparators below subtract exactly.
\<close>

fun insert_by :: "('a \<Rightarrow> 'a \<Rightarrow> real) \<Rightarrow> 'a \<Rightarrow> 'a list \<Rightarrow> 'a list" where
  "insert_by cmp x [] = [x]"
| "insert_by cmp x (y # ys) = (if cmp x y \<le> 0 then x # y # ys else y # insert_by cmp x ys)"

definition sort_by :: "('a \<Rightarrow> 'a \<Rightarrow> real) \<Rightarrow> 'a list \<Rightarrow> 'a list" where
  "sort_by cmp xs = foldr (insert_by cmp) xs []"

definition Array_filter :: "('a \<Rightarrow> bool) \<Rightarrow> addr \<Rightarrow> 'a store \<Rightarrow> addr \<times> 'a store" where
  "Array_filter p a h = (length h, h @ [filter p (h ! a)])"

definition Array_sort :: "('a \<Rightarrow> 'a \<Rightarrow> real) \<Rightarrow> addr \<Rightarrow> 'a store \<Rightarrow> addr \<times> 'a store" where
  "Array_sort cmp a h = (a, h[a := sort_by cmp (h ! a)])"

text \<open>
  \<open>new Date(x) - new Date(y)\<close>; the difference is \<open>NaN\<close> when either date is invalid,
  and \<open>sort\<close> takes a \<open>NaN\<close> from its comparator as 0.
\<close>

definition date_diff :: "platform \<Rightarrow> string \<Rightarrow> string \<Rightarrow> real" where
  "date_diff pf x y =
     (case Date_value pf x of
        None \<Rightarrow> 0
      | Some u \<Rightarrow> (case Date_value pf y of None \<Rightarrow> 0 | Some v \<Rightarrow> u - v))"

text \<open>The comparator of the satellite view, by the value of \<open>satelliteSort\<close>.\<close>

definition satellite_compare :: "platform \<Rightarrow> string \<Rightarrow> favorite \<Rightarrow> favorite \<Rightarrow> real" where
  "satellite_compare pf satelliteSort_key a b =
     (if satelliteSort_key = ''name'' then real_of_int (localeCompare pf (name a) (name b))
      else if satelliteSort_key = ''norad_id'' then real_of_int (norad_id a - norad_id b)
      else if satelliteSort_key = ''altitude'' then
        (let altA = (case current_position a of None \<Rightarrow> 0 | Some p \<Rightarrow> altitude p);
             altB = (case current_position b of None \<Rightarrow> 0 | Some p \<Rightarrow> altitude p)
         in altB - altA)
      else if satelliteSort_key = ''velocity'' then
        (let velA = (case current_position a of None \<Rightarrow> 0 | Some p \<Rightarrow> velocity p);
             velB = (case current_position b of None \<Rightarrow> 0 | Some p \<Rightarrow> velocity p)
         in velB - velA)
      else if satelliteSort_key = ''added_at'' then date_diff pf (added_at b) (added_at a)
      else 0)"

text \<open>The comparator of the pass view, by the value of \<open>passSort\<close>.\<close>

definition pass_compare :: "platform \<Rightarrow> string \<Rightarrow> pass \<Rightarrow> pass \<Rightarrow> real" where
  "pass_compare pf passSort_key a b =
     (if passSort_key = ''start_time'' then date_diff pf (start_time a) (start_time b)
      else if passSort_key = ''elevation'' then max_elevation b - max_elevation a
      else if passSort_key = ''duration'' then duration b - duration a
      else if passSort_key = ''satellite'' then
        real_of_int (localeCompare pf (satellite_name a) (satellite_name b))
      else 0)"

text \<open>
  \<open>filteredAndSortedSatellites\<close>: \<open>favorites.filter(...)\<close>, then \<open>sort\<close> on the
  result. \<open>favorites_ref\<close> is the reference the state variable \<open>favorites\<close> holds.
\<close>

definition filteredAndSortedSatellites ::
  "platform \<Rightarrow> view \<Rightarrow> addr \<Rightarrow> favorite store \<Rightarrow> addr \<times> favorite store" where
  "filteredAndSortedSatellites pf v favorites_ref h =
     (case Array_filter
             (\<lambda>satellite.
                String_includes (toLowerCase pf (name satellite)) (toLowerCase pf (satelliteFilter v)) \<or>
                String_includes (toString pf (norad_id satellite)) (satelliteFilter v))
             favorites_ref h
      of (filtered, h1) \<Rightarrow> Array_sort (satellite_compare pf (satelliteSort v)) filtered h1)"

text \<open>
  \<open>filteredAndSortedPasses\<close>: \<open>let filtered = passes\<close>, replaced by a filtered copy
  for each filter that is switched on, then \<open>filtered.sort(...)\<close>. A comparison with a
  \<open>NaN\<close> minimum elevation is false.
\<close>

definition filteredAndSortedPasses ::
  "platform \<Rightarrow> view \<Rightarrow> addr \<Rightarrow> pass store \<Rightarrow> addr \<times> pass store" where
  "filteredAndSortedPasses pf v passes_ref h =
     (case (if showOnlyVisible v
            then Array_filter (\<lambda>pass. visibility pass = ''visible'') passes_ref h
            else (passes_ref, h))
      of (filtered1, h1) \<Rightarrow>
        (case (if passFilter v \<noteq> ''all''
               then Array_filter
                      (\<lambda>pass. case parseInt pf (passFilter v) of
                                 None \<Rightarrow> False
                               | Some minElevation \<Rightarrow> max_elevation pass \<ge> minElevation)
                      filtered1 h1
               else (filtered1, h1))
         of (filtered2, h2) \<Rightarrow> Array_sort (pass_compare pf (passSort v)) filtered2 h2))"

subsection \<open>Concrete view\<close>

text \<open>No filter switched on, passes sorted by elevation.\<close>

definition by_elevation :: view where
  "by_elevation =
     \<lparr>satelliteFilter = [], satelliteSort = ''name'', passFilter = ''all'',
      passSort = ''elevation'', showOnlyVisible = False\<rparr>"

section \<open>Properties of double rounding\<close>

text \<open>The binade of a number brackets its magnitude, and grows with it.\<close>

lemma binade_ge: "- 1022 \<le> binade x"
  by (simp add: binade_def)

lemma binade_upper: "\<bar>x\<bar> < 2 powi (binade x + 1)"
proof -
  define y where "y = \<bar>x\<bar> * 2 ^ 1022"
  define m where "m = nat \<lfloor>y\<rfloor>"
  define k where "k = floorlog 2 m"
  have y0: "0 \<le> y" by (simp add: y_def)
  have b: "binade x = max (- 1022) (int k - 1023)"
    by (simp add: binade_def k_def m_def y_def)
  have ylt: "y < 2 ^ k"
  proof (cases "m = 0")
    case True
    then have "\<lfloor>y\<rfloor> \<le> 0" by (simp add: m_def)
    then have "y < 1" by (simp add: floor_le_iff)
    also have "(1::real) \<le> 2 ^ k" by simp
    finally show ?thesis .
  next
    case False
    then have "m < 2 ^ k" using floorlog_bounds[of m 2] by (simp add: k_def)
    then have "Suc m \<le> 2 ^ k" by simp
    then have "real (Suc m) \<le> 2 ^ k"
      by (metis of_nat_le_iff of_nat_numeral of_nat_power)
    moreover have "y < real (Suc m)" using y0 by (simp add: m_def) linarith
    ultimately show ?thesis by linarith
  qed
  have "\<bar>x\<bar> = y / 2 ^ 1022" by (simp add: y_def)
  also have "\<dots> < 2 ^ k / 2 ^ 1022" using ylt by (simp add: divide_strict_right_mono)
  also have "\<dots> = 2 powi (int k - 1022)"
    by (simp add: power_int_diff)
  also have "\<dots> \<le> 2 powi (binade x + 1)"
    by (rule power_int_increasing) (simp_all add: b)
  finally show ?thesis .
qed

lemma binade_lower:
  assumes "- 1022 < binade x"
  shows "2 powi (binade x) \<le> \<bar>x\<bar>"
proof -
  define y where "y = \<bar>x\<bar> * 2 ^ 1022"
  define m where "m = nat \<lfloor>y\<rfloor>"
  define k where "k = floorlog 2 m"
  have y0: "0 \<le> y" by (simp add: y_def)
  have b: "binade x = max (- 1022) (int k - 1023)"
    by (simp add: binade_def k_def m_def y_def)
  with assms have k: "binade x = int k - 1023" "2 \<le> k" by auto
  have "m \<noteq> 0"
  proof
    assume "m = 0"
    then have "k = 0" by (simp add: k_def floorlog_eq_zero_iff)
    with k(2) show False by simp
  qed
  then have "2 ^ (k - 1) \<le> m" using floorlog_bounds[of m 2] by (simp add: k_def)
  then have "(2::real) ^ (k - 1) \<le> real m"
    by (metis of_nat_le_iff of_nat_numeral of_nat_power)
  also have "real m \<le> y" using y0 by (simp add: m_def)
  finally have "2 ^ (k - 1) / 2 ^ 1022 \<le> y / 2 ^ 1022" by (simp add: divide_right_mono)
  moreover have "y / 2 ^ 1022 = \<bar>x\<bar>" by (simp add: y_def)
  moreover have "(2::real) ^ (k - 1) / 2 ^ 1022 = 2 powi (int (k - 1) - 1022)"
    by (simp add: power_int_diff)
  moreover have "int (k - 1) - 1022 = binade x" using k by simp
  ultimately show ?thesis by simp
qed

lemma binade_mono:
  assumes "\<bar>x\<bar> \<le> \<bar>y\<bar>"
  shows "binade x \<le> binade y"
proof (rule ccontr)
  assume "\<not> binade x \<le> binade y"
  then have lt: "binade y < binade x" by simp
  with binade_ge[of y] have "- 1022 < binade x" by linarith
  then have "2 powi (binade x) \<le> \<bar>x\<bar>" by (rule binade_lower)
  also note assms
  also note binade_upper[of y]
  also have "(2::real) powi (binade y + 1) \<le> 2 powi (binade x)"
    by (rule power_int_increasing) (use lt in simp_all)
  finally show False by simp
qed

lemma binade_eqI:
  assumes "- 1022 \<le> e" and "e = - 1022 \<or> 2 powi e \<le> \<bar>x\<bar>" and "\<bar>x\<bar> < 2 powi (e + 1)"
  shows "binade x = e"
proof (rule antisym)
  show "binade x \<le> e"
  proof (rule ccontr)
    assume "\<not> binade x \<le> e"
    then have lt: "e < binade x" by simp
    with assms(1) have "2 powi (binade x) \<le> \<bar>x\<bar>" by (intro binade_lower) simp
    moreover have "(2::real) powi (e + 1) \<le> 2 powi (binade x)"
      by (rule power_int_increasing) (use lt in simp_all)
    ultimately show False using assms(3) by linarith
  qed
  show "e \<le> binade x"
  proof (rule ccontr)
    assume "\<not> e \<le> binade x"
    then have lt: "binade x < e" by simp
    with binade_ge[of x] have "e \<noteq> - 1022" by linarith
    with assms(2) have "2 powi e \<le> \<bar>x\<bar>" by simp
    moreover have "(2::real) powi (binade x + 1) \<le> 2 powi e"
      by (rule power_int_increasing) (use lt in simp_all)
    ultimately show False using binade_upper[of x] by linarith
  qed
qed

lemma binade_minus [simp]: "binade (- x) = binade x"
  by (simp add: binade_def)

lemma quantum_pos: "0 < quantum x"
  by (simp add: quantum_def zero_less_power_int)

lemma quantum_minus [simp]: "quantum (- x) = quantum x"
  by (simp add: quantum_def)

lemma is_double_minus [simp]: "is_double (- x) = is_double x"
  by (simp add: is_double_def)

text \<open>
  Rounding never crosses a double: a double below the exact value stays below the rounded
  one, a double above it stays above. So a double rounds to itself.
\<close>

lemma quantum_scale: "2 ^ 53 * quantum y = 2 powi (binade y + 1)"
proof -
  have e: "binade y + 1 = (binade y - 52) + 53" by simp
  have "(2::real) powi (binade y + 1) = 2 powi (binade y - 52) * 2 powi 53"
    unfolding e by (rule power_int_add) simp
  then show ?thesis by (simp add: quantum_def)
qed

lemma quantum_scale': "2 ^ 52 * quantum y = 2 powi (binade y)"
proof -
  have e: "binade y = (binade y - 52) + 52" by simp
  have "(2::real) powi (binade y) = 2 powi (binade y - 52) * 2 powi 52"
    by (subst e, rule power_int_add) simp
  then show ?thesis by (simp add: quantum_def)
qed

lemma round_magnitude_cases:
  "round_magnitude y = of_int \<lfloor>y / quantum y\<rfloor> * quantum y \<or>
   round_magnitude y = (of_int \<lfloor>y / quantum y\<rfloor> + 1) * quantum y"
  by (simp add: round_magnitude_def Let_def)

lemma round_magnitude_exact:
  assumes "of_int \<lfloor>y / quantum y\<rfloor> = y / quantum y"
  shows "round_magnitude y = y"
proof -
  have "2 * (y / quantum y - of_int \<lfloor>y / quantum y\<rfloor>) < 1"
    by (simp only: assms) simp
  then have "round_magnitude y = of_int \<lfloor>y / quantum y\<rfloor> * quantum y"
    unfolding round_magnitude_def Let_def by (rule if_P[OF disjI1])
  also have "\<dots> = y / quantum y * quantum y" by (simp only: assms)
  also have "\<dots> = y" using quantum_pos[of y] by simp
  finally show ?thesis .
qed

lemma round_magnitude_nonneg:
  assumes "0 \<le> y"
  shows "0 \<le> round_magnitude y"
proof -
  have "0 \<le> y / quantum y" using assms quantum_pos[of y] by simp
  then have "0 \<le> \<lfloor>y / quantum y\<rfloor>" by simp
  then have "0 \<le> of_int \<lfloor>y / quantum y\<rfloor> * quantum y"
    "0 \<le> (of_int \<lfloor>y / quantum y\<rfloor> + 1) * quantum y"
    using quantum_pos[of y] by simp_all
  with round_magnitude_cases[of y] show ?thesis by auto
qed

lemma round_magnitude_ge:
  assumes "0 \<le> L" and "L \<le> y" and "is_double L"
  shows "L \<le> round_magnitude y"
proof -
  define q where "q = quantum y"
  define f where "f = \<lfloor>y / q\<rfloor>"
  have q: "0 < q" by (simp add: q_def quantum_pos)
  have y: "0 \<le> y" using assms by simp
  have fq: "of_int f * q \<le> round_magnitude y"
    using round_magnitude_cases[of y] q by (auto simp: f_def q_def)
  have le: "binade L \<le> binade y" using assms y by (intro binade_mono) simp
  have "L \<le> of_int f * q"
  proof (cases "binade L = binade y")
    case True
    then have "quantum L = q" by (simp add: quantum_def q_def)
    with assms(1,3) have i: "of_int \<lfloor>L / q\<rfloor> = L / q" by (simp add: is_double_def)
    have "L / q \<le> y / q" using assms(2) q by (simp add: divide_right_mono)
    then have "\<lfloor>L / q\<rfloor> \<le> f" unfolding f_def by (rule floor_mono)
    then have "(of_int \<lfloor>L / q\<rfloor> :: real) \<le> of_int f" by simp
    then have "L / q \<le> of_int f" by (simp add: i)
    then show ?thesis using q by (simp add: pos_divide_le_eq)
  next
    case False
    with le have lt: "binade L < binade y" by simp
    with binade_ge[of L] have "- 1022 < binade y" by linarith
    then have "2 powi (binade y) \<le> y" using binade_lower[of y] y by simp
    then have "2 ^ 52 * q \<le> y" using quantum_scale'[of y] by (simp add: q_def)
    then have "2 ^ 52 \<le> y / q" using q by (simp add: pos_le_divide_eq)
    then have "(2::int) ^ 52 \<le> f" unfolding f_def by (simp add: le_floor_iff)
    then have "(2::real) ^ 52 \<le> of_int f"
      by (metis of_int_le_iff of_int_numeral of_int_power)
    then have "2 ^ 52 * q \<le> of_int f * q" using q by simp
    moreover have "L < 2 powi (binade y)"
    proof -
      have "L < 2 powi (binade L + 1)" using binade_upper[of L] assms(1) by simp
      also have "(2::real) powi (binade L + 1) \<le> 2 powi (binade y)"
        by (rule power_int_increasing) (use lt in simp_all)
      finally show ?thesis .
    qed
    ultimately show ?thesis using quantum_scale'[of y] by (simp add: q_def)
  qed
  with fq show ?thesis by linarith
qed

lemma round_magnitude_le:
  assumes "0 \<le> y" and "y \<le> R" and "is_double R"
  shows "round_magnitude y \<le> R"
proof (cases "of_int \<lfloor>y / quantum y\<rfloor> = y / quantum y")
  case True
  then show ?thesis using assms(2) by (simp add: round_magnitude_exact)
next
  case False
  define q where "q = quantum y"
  define f where "f = \<lfloor>y / q\<rfloor>"
  have q: "0 < q" by (simp add: q_def quantum_pos)
  have R: "0 \<le> R" using assms by simp
  have ne: "of_int f \<noteq> y / q" using False by (simp add: f_def q_def)
  have "of_int f \<le> y / q" by (simp add: f_def)
  with ne have flt: "of_int f < y / q" by linarith
  have fq: "round_magnitude y \<le> (of_int f + 1) * q"
    using round_magnitude_cases[of y] q by (auto simp: f_def q_def)
  have le: "binade y \<le> binade R" using assms by (intro binade_mono) simp
  have "(of_int f + 1) * q \<le> R"
  proof (cases "binade R = binade y")
    case True
    then have "quantum R = q" by (simp add: quantum_def q_def)
    with R assms(3) have i: "of_int \<lfloor>R / q\<rfloor> = R / q" by (simp add: is_double_def)
    have "y / q \<le> R / q" using assms(2) q by (simp add: divide_right_mono)
    with flt have "of_int f < R / q" by linarith
    then have "of_int f < (of_int \<lfloor>R / q\<rfloor> :: real)" by (simp add: i)
    then have "f < \<lfloor>R / q\<rfloor>" by simp
    then have "f + 1 \<le> \<lfloor>R / q\<rfloor>" by simp
    then have "(of_int (f + 1) :: real) \<le> of_int \<lfloor>R / q\<rfloor>" by (simp only: of_int_le_iff)
    then have "of_int f + 1 \<le> R / q" by (simp add: i)
    then show ?thesis using q by (simp add: pos_le_divide_eq)
  next
    case False
    with le have lt: "binade y < binade R" by simp
    with binade_ge[of y] have "- 1022 < binade R" by linarith
    then have "2 powi (binade R) \<le> R" using binade_lower[of R] R by simp
    moreover have "(2::real) powi (binade y + 1) \<le> 2 powi (binade R)"
      by (rule power_int_increasing) (use lt in simp_all)
    moreover have "(of_int f + 1) * q \<le> 2 powi (binade y + 1)"
    proof -
      have "y < 2 ^ 53 * q" using binade_upper[of y] assms(1) quantum_scale[of y] by (simp add: q_def)
      then have "y / q < 2 ^ 53" using q by (simp add: pos_divide_less_eq)
      with flt have "of_int f < (2::real) ^ 53" by linarith
      then have "f < 2 ^ 53" by (metis of_int_less_iff of_int_numeral of_int_power)
      then have "f + 1 \<le> 2 ^ 53" by simp
      then have "(of_int (f + 1) :: real) \<le> 2 ^ 53"
        by (metis of_int_le_iff of_int_numeral of_int_power)
      then have "(of_int f + 1) * q \<le> 2 ^ 53 * q" using q by simp
      then show ?thesis using quantum_scale[of y] by (simp add: q_def)
    qed
    ultimately show ?thesis by linarith
  qed
  with fq show ?thesis by linarith
qed

lemma round_double_ge:
  assumes "is_double L" and "L \<le> y"
  shows "L \<le> round_double y"
proof (cases "y < 0")
  case False
  show ?thesis
  proof (cases "0 \<le> L")
    case True
    with assms False show ?thesis by (simp add: round_double_def round_magnitude_ge)
  next
    case L: False
    have "0 \<le> round_magnitude y" using False by (intro round_magnitude_nonneg) simp
    with L False show ?thesis by (simp add: round_double_def)
  qed
next
  case True
  have "round_magnitude (- y) \<le> - L"
    by (rule round_magnitude_le) (use assms True in simp_all)
  with True show ?thesis by (simp add: round_double_def)
qed

lemma round_double_le:
  assumes "is_double R" and "y \<le> R"
  shows "round_double y \<le> R"
proof (cases "y < 0")
  case False
  with assms show ?thesis by (simp add: round_double_def round_magnitude_le)
next
  case True
  show ?thesis
  proof (cases "0 \<le> R")
    case R: True
    have "0 \<le> round_magnitude (- y)" using True by (intro round_magnitude_nonneg) simp
    with R True show ?thesis by (simp add: round_double_def)
  next
    case False
    have "- R \<le> round_magnitude (- y)"
      by (rule round_magnitude_ge) (use assms True False in simp_all)
    with True show ?thesis by (simp add: round_double_def)
  qed
qed

lemma round_double_exact: "is_double x \<Longrightarrow> round_double x = x"
  using round_double_ge[of x x] round_double_le[of x x] by simp

lemma is_double_0: "is_double 0"
  by (simp add: is_double_def)

lemma is_double_int:
  assumes "\<bar>k\<bar> < 2 ^ 53"
  shows "is_double (of_int k)"
proof -
  define d where "d = nat (52 - binade (of_int k))"
  have "\<bar>of_int k :: real\<bar> < 2 ^ 53"
    using assms by (metis of_int_abs of_int_less_iff of_int_numeral of_int_power)
  then have small: "\<bar>of_int k :: real\<bar> < 2 powi 53" by simp
  have "binade (of_int k) \<le> 52"
  proof (rule ccontr)
    assume "\<not> binade (of_int k) \<le> 52"
    then have lt: "53 \<le> binade (of_int k)" by simp
    then have "2 powi (binade (of_int k)) \<le> \<bar>of_int k :: real\<bar>" by (intro binade_lower) simp
    moreover have "(2::real) powi 53 \<le> 2 powi (binade (of_int k))"
      by (rule power_int_increasing) (use lt in simp_all)
    ultimately show False using small by linarith
  qed
  then have e: "binade (of_int k) - 52 = - int d" by (simp add: d_def)
  have "quantum (of_int k) = 1 / 2 ^ d"
    by (simp add: quantum_def e power_int_minus field_simps)
  then have "\<bar>of_int k :: real\<bar> / quantum (of_int k) = of_int (\<bar>k\<bar> * 2 ^ d)" by simp
  moreover have "\<bar>of_int k :: real\<bar> < 2 ^ 1024"
  proof -
    have "\<bar>of_int k :: real\<bar> < 2 ^ 53" by fact
    also have "(2::real) ^ 53 \<le> 2 ^ 1024" by (rule power_increasing) simp_all
    finally show ?thesis .
  qed
  ultimately show ?thesis unfolding is_double_def by (simp only: floor_of_int)
qed

text \<open>Rounding at a given binade, for evaluation; the range of one backoff delay.\<close>

lemma round_double_at:
  assumes "0 \<le> y" and "binade y = e" and "\<lfloor>y / 2 powi (e - 52)\<rfloor> = f"
  shows "round_double y =
     (if 2 * (y / 2 powi (e - 52) - of_int f) < 1 \<or>
         (2 * (y / 2 powi (e - 52) - of_int f) = 1 \<and> even f)
      then of_int f * 2 powi (e - 52) else (of_int f + 1) * 2 powi (e - 52))"
  using assms by (simp add: round_double_def round_magnitude_def quantum_def Let_def)

lemma top_jitter_scaled: "js_times (1 - 1 / 2 ^ 52) 1000 = 1000 - 1 / 2 ^ 42"
proof -
  have "round_double ((1 - 1 / 2 ^ 52) * 1000) =
     (if 2 * ((1 - 1 / 2 ^ 52) * 1000 / 2 powi (9 - 52) - of_int 8796093022207998) < (1::real) \<or>
         (2 * ((1 - 1 / 2 ^ 52) * 1000 / 2 powi (9 - 52) - of_int 8796093022207998) = (1::real) \<and>
          even (8796093022207998::int))
      then of_int 8796093022207998 * 2 powi (9 - 52)
      else (of_int 8796093022207998 + 1) * 2 powi (9 - 52))"
  proof (rule round_double_at)
    show "binade ((1 - 1 / 2 ^ 52) * 1000) = 9" by (rule binade_eqI) simp_all
    show "\<lfloor>(1 - 1 / 2 ^ 52) * 1000 / 2 powi (9 - 52)\<rfloor> = (8796093022207998::int)"
      by (simp add: power_int_minus floor_eq_iff)
  qed simp
  also have "\<dots> = 1000 - 1 / 2 ^ 42" by (simp add: power_int_minus)
  finally show ?thesis by (simp only: js_times_def)
qed

lemma second_delay: "backoff_delay 1000 1 (1 - 1 / 2 ^ 52) = 3000"
proof -
  have x: "js_times 1000 (2 ^ 1) = 2000"
    using round_double_exact[OF is_double_int[of 2000]] by (simp add: js_times_def)
  have "round_double (2000 + (1000 - 1 / 2 ^ 42)) =
     (if 2 * ((2000 + (1000 - 1 / 2 ^ 42)) / 2 powi (11 - 52) - of_int 6597069766655999) < (1::real) \<or>
         (2 * ((2000 + (1000 - 1 / 2 ^ 42)) / 2 powi (11 - 52) - of_int 6597069766655999) = (1::real) \<and>
          even (6597069766655999::int))
      then of_int 6597069766655999 * 2 powi (11 - 52)
      else (of_int 6597069766655999 + 1) * 2 powi (11 - 52))"
  proof (rule round_double_at)
    show "binade (2000 + (1000 - 1 / 2 ^ 42)) = 11" by (rule binade_eqI) simp_all
    show "\<lfloor>(2000 + (1000 - 1 / 2 ^ 42)) / 2 powi (11 - 52)\<rfloor> = (6597069766655999::int)"
      by (simp add: power_int_minus floor_eq_iff)
  qed simp
  also have "\<dots> = 3000" by (simp add: power_int_minus)
  finally show ?thesis by (simp only: backoff_delay_def x top_jitter_scaled js_plus_def)
qed

lemma backoff_delay_range:
  assumes "0 \<le> r" and "r < 1"
    and "is_double (b * 2 ^ k)" and "is_double (b * 2 ^ k + 1000)"
  shows "b * 2 ^ k \<le> backoff_delay b k r \<and> backoff_delay b k r \<le> b * 2 ^ k + 1000"
proof -
  have x: "js_times b (2 ^ k) = b * 2 ^ k"
    using assms(3) by (simp add: js_times_def round_double_exact)
  have "is_double 1000" using is_double_int[of 1000] by simp
  then have "js_times r 1000 \<le> 1000"
    unfolding js_times_def by (rule round_double_le) (use assms(2) in simp)
  moreover have "0 \<le> js_times r 1000"
    unfolding js_times_def using is_double_0 by (rule round_double_ge) (use assms(1) in simp)
  ultimately show ?thesis
    unfolding backoff_delay_def x js_plus_def
    by (intro conjI round_double_ge round_double_le assms(3,4)) simp_all
qed


section \<open>Properties of the retry loop\<close>

text \<open>One equation for each way an iteration of the loop can end.\<close>

lemma retry_loop_exhausted:
  "\<not> int a \<le> m \<Longrightarrow> retry_loop fn m b rnd a le c ds s =
     \<lparr>result = Inl le, attempts = c, delays = ds, final = s\<rparr>"
  by (subst retry_loop.simps) simp

lemma retry_loop_fulfilled:
  "int a \<le> m \<Longrightarrow> fn s = (Fulfilled v, s') \<Longrightarrow> retry_loop fn m b rnd a le c ds s =
     \<lparr>result = Inr v, attempts = Suc c, delays = ds, final = s'\<rparr>"
  by (subst retry_loop.simps) simp

lemma retry_loop_rethrow:
  "int a \<le> m \<Longrightarrow> fn s = (Rejected e, s') \<Longrightarrow> client_error e \<or> int a = m \<Longrightarrow>
   retry_loop fn m b rnd a le c ds s =
     \<lparr>result = Inl (Some e), attempts = Suc c, delays = ds, final = s'\<rparr>"
  by (subst retry_loop.simps) auto

lemma retry_loop_again:
  "int a \<le> m \<Longrightarrow> fn s = (Rejected e, s') \<Longrightarrow> \<not> client_error e \<Longrightarrow> int a \<noteq> m \<Longrightarrow>
   retry_loop fn m b rnd a le c ds s =
     retry_loop fn m b rnd (Suc a) (Some e) (Suc c) (ds @ [backoff_delay b a (rnd a)]) s'"
  by (subst retry_loop.simps) simp

text \<open>The four ways one iteration can go, as a case rule.\<close>

lemma retry_loop_cases [case_names Exhausted Fulfilled Rethrow Again]:
  assumes "\<not> int a \<le> m \<Longrightarrow> P"
    and "\<And>v s'. int a \<le> m \<Longrightarrow> fn s = (Fulfilled v, s') \<Longrightarrow> P"
    and "\<And>e s'. int a \<le> m \<Longrightarrow> fn s = (Rejected e, s') \<Longrightarrow> client_error e \<or> int a = m \<Longrightarrow> P"
    and "\<And>e s'. int a \<le> m \<Longrightarrow> fn s = (Rejected e, s') \<Longrightarrow> \<not> client_error e \<Longrightarrow> int a \<noteq> m \<Longrightarrow> P"
  shows P
proof (cases "int a \<le> m")
  case False then show ?thesis by (rule assms(1))
next
  case True
  obtain out s' where f: "fn s = (out, s')" by (cases "fn s")
  show ?thesis
  proof (cases out)
    case (Fulfilled v) with True f show ?thesis by (auto intro: assms(2))
  next
    case (Rejected e)
    with True f show ?thesis by (cases "client_error e \<or> int a = m") (auto intro: assms(3,4))
  qed
qed

text \<open>Each iteration calls the request function once, and the index only grows.\<close>

lemma retry_loop_attempts:
  "attempts (retry_loop fn m b rnd a le c ds s) \<le> c + nat (m + 1 - int a)"
proof (induction fn m b rnd a le c ds s rule: retry_loop.induct)
  case (1 fn m b rnd a le c ds s)
  show ?case
  proof (cases rule: retry_loop_cases[where a=a and m=m and fn=fn and s=s])
    case Exhausted
    then show ?thesis by (simp add: retry_loop_exhausted)
  next
    case (Fulfilled v s')
    then show ?thesis by (simp add: retry_loop_fulfilled)
  next
    case (Rethrow e s')
    then show ?thesis by (simp add: retry_loop_rethrow)
  next
    case (Again e s')
    with "1.IH"[OF Again(1) Again(2)[symmetric] refl Again(3,4)] show ?thesis
      by (simp add: retry_loop_again)
  qed
qed

text \<open>
  When every call is rejected with an error the loop retries on, the loop runs to the last
  index and throws the error of that last call.
\<close>

lemma retry_loop_all_fail:
  assumes "int a \<le> m"
    and "\<forall>k \<le> nat m - a. \<exists>e. fst (fn (world_after fn k s)) = Rejected e \<and> \<not> client_error e"
    and "fst (fn (world_after fn (nat m - a) s)) = Rejected e_last"
  shows "retry_loop fn m b rnd a le c ds s =
     \<lparr>result = Inl (Some e_last), attempts = c + (nat m - a) + 1,
      delays = ds @ map (\<lambda>k. backoff_delay b k (rnd k)) [a ..< nat m],
      final = snd (fn (world_after fn (nat m - a) s))\<rparr>"
  using assms
proof (induction fn m b rnd a le c ds s rule: retry_loop.induct)
  case (1 fn m b rnd a le c ds s)
  from "1.prems"(2)[rule_format, of 0] obtain e where e: "fst (fn s) = Rejected e" "\<not> client_error e"
    by auto
  then obtain s' where f: "fn s = (Rejected e, s')" by (cases "fn s") auto
  show ?case
  proof (cases "int a = m")
    case True
    then have "nat m - a = 0" by auto
    with "1.prems"(3) f have "e_last = e" by simp
    with True f \<open>nat m - a = 0\<close> show ?thesis
      by (simp add: retry_loop_rethrow)
  next
    case False
    with "1.prems"(1) have lt: "int (Suc a) \<le> m" by simp
    then have d: "nat m - a = Suc (nat m - Suc a)" by linarith
    have w: "\<And>k. world_after fn k s' = world_after fn (Suc k) s" using f by simp
    have p2: "\<forall>k \<le> nat m - Suc a. \<exists>e. fst (fn (world_after fn k s')) = Rejected e \<and> \<not> client_error e"
    proof (intro allI impI)
      fix k assume "k \<le> nat m - Suc a"
      then have "Suc k \<le> nat m - a" using d by simp
      with "1.prems"(2) show "\<exists>e. fst (fn (world_after fn k s')) = Rejected e \<and> \<not> client_error e"
        unfolding w by blast
    qed
    have p3: "fst (fn (world_after fn (nat m - Suc a) s')) = Rejected e_last"
      using "1.prems"(3) unfolding w d .
    have up: "[a ..< nat m] = a # [Suc a ..< nat m]" using lt by (simp add: upt_rec[of a])
    have step: "retry_loop fn m b rnd a le c ds s =
        retry_loop fn m b rnd (Suc a) (Some e) (Suc c) (ds @ [backoff_delay b a (rnd a)]) s'"
      using "1.prems"(1) f e(2) False by (rule retry_loop_again)
    have fin: "world_after fn (nat m - a) s = world_after fn (nat m - Suc a) s'"
      unfolding w d ..
    show ?thesis
      unfolding step fin up
      using "1.IH"[OF "1.prems"(1) f[symmetric] refl e(2) False lt p2 p3] d by simp
  qed
qed

text \<open>The delays waited are those of the consecutive indices from the start.\<close>

lemma retry_loop_delays:
  "\<exists>n. delays (retry_loop fn m b rnd a le c ds s) =
        ds @ map (\<lambda>k. backoff_delay b k (rnd k)) [a ..< a + n]"
proof (induction fn m b rnd a le c ds s rule: retry_loop.induct)
  case (1 fn m b rnd a le c ds s)
  show ?case
  proof (cases rule: retry_loop_cases[where a=a and m=m and fn=fn and s=s])
    case Exhausted
    then show ?thesis by (intro exI[of _ 0]) (simp add: retry_loop_exhausted)
  next
    case (Fulfilled v s')
    then show ?thesis by (intro exI[of _ 0]) (simp add: retry_loop_fulfilled)
  next
    case (Rethrow e s')
    then show ?thesis by (intro exI[of _ 0]) (simp add: retry_loop_rethrow)
  next
    case (Again e s')
    from "1.IH"[OF Again(1) Again(2)[symmetric] refl Again(3,4)] obtain n where
      n: "delays (retry_loop fn m b rnd (Suc a) (Some e) (Suc c) (ds @ [backoff_delay b a (rnd a)]) s')
          = (ds @ [backoff_delay b a (rnd a)]) @ map (\<lambda>k. backoff_delay b k (rnd k)) [Suc a ..< Suc a + n]"
      by blast
    have up: "[a ..< a + Suc n] = a # [Suc a ..< Suc a + n]" by (simp add: upt_rec[of a] del: upt_Suc)
    have step: "retry_loop fn m b rnd a le c ds s =
        retry_loop fn m b rnd (Suc a) (Some e) (Suc c) (ds @ [backoff_delay b a (rnd a)]) s'"
      using Again by (rule retry_loop_again)
    have "delays (retry_loop fn m b rnd a le c ds s) =
            ds @ map (\<lambda>k. backoff_delay b k (rnd k)) [a ..< a + Suc n]"
      unfolding step n up by simp
    then show ?thesis by blast
  qed
qed

text \<open>
  Claim C1, as stated, reads the second argument as a bound on the total number of
  attempts. With the default arguments (3, 1000) a request that always fails with status
  500 is called four times, not at most three.
\<close>

theorem default_policy_makes_four_attempts:
  "\<not> attempts (retryWithBackoff always_failing 3 1000 no_jitter ()) \<le> 3"
  by (simp add: retryWithBackoff_def retry_loop.simps always_failing_def server_error_def client_error_def)

text \<open>
  Claim C1, amended: one call of \<open>retryWithBackoff\<close> calls the request function at most
  \<open>maxRetries + 1\<close> times (the first attempt and \<open>maxRetries\<close> retries); and when
  \<open>maxRetries\<close> is not negative and every attempt is rejected with an error that is not a
  4xx other than 429, it makes exactly \<open>maxRetries + 1\<close> attempts and throws the error of
  the last one.
\<close>

theorem retry_attempts_bounded:
  "attempts (retryWithBackoff fn maxRetries baseDelay rnd s) \<le> nat (maxRetries + 1) \<and>
   (0 \<le> maxRetries \<and>
    (\<forall>k \<le> nat maxRetries. \<exists>e. fst (fn (world_after fn k s)) = Rejected e \<and> \<not> client_error e) \<longrightarrow>
      attempts (retryWithBackoff fn maxRetries baseDelay rnd s) = nat maxRetries + 1 \<and>
      (\<exists>e. fst (fn (world_after fn (nat maxRetries) s)) = Rejected e \<and>
           result (retryWithBackoff fn maxRetries baseDelay rnd s) = Inl (Some e)))"
proof (intro conjI impI)
  show "attempts (retryWithBackoff fn maxRetries baseDelay rnd s) \<le> nat (maxRetries + 1)"
    using retry_loop_attempts[of fn maxRetries baseDelay rnd 0 None 0 "[]" s]
    by (simp add: retryWithBackoff_def)
next
  assume h: "0 \<le> maxRetries \<and>
    (\<forall>k \<le> nat maxRetries. \<exists>e. fst (fn (world_after fn k s)) = Rejected e \<and> \<not> client_error e)"
  then obtain e where e: "fst (fn (world_after fn (nat maxRetries) s)) = Rejected e" by blast
  have r: "retryWithBackoff fn maxRetries baseDelay rnd s =
     \<lparr>result = Inl (Some e), attempts = 0 + (nat maxRetries - 0) + 1,
      delays = [] @ map (\<lambda>k. backoff_delay baseDelay k (rnd k)) [0 ..< nat maxRetries],
      final = snd (fn (world_after fn (nat maxRetries - 0) s))\<rparr>"
    unfolding retryWithBackoff_def
    by (rule retry_loop_all_fail) (use h e in simp_all)
  show "attempts (retryWithBackoff fn maxRetries baseDelay rnd s) = nat maxRetries + 1"
    by (simp add: r)
  show "\<exists>e. fst (fn (world_after fn (nat maxRetries) s)) = Rejected e \<and>
           result (retryWithBackoff fn maxRetries baseDelay rnd s) = Inl (Some e)"
    using e by (simp add: r)
qed

text \<open>The amended claim C1 at the default arguments, on a request that always answers 500.\<close>

theorem retry_attempts_bounded_witness:
  "attempts (retryWithBackoff always_failing 3 1000 no_jitter ()) = 4 \<and>
   result (retryWithBackoff always_failing 3 1000 no_jitter ()) = Inl (Some server_error)"
  using retry_attempts_bounded[of always_failing 3 1000 no_jitter "()"]
  by (simp add: always_failing_def server_error_def client_error_def)

text \<open>
  Claim C2: when the first attempt is rejected with a status in 400..499 other than 429,
  the request function is called exactly once, no delay is waited, and the error of that
  attempt is thrown.
\<close>

theorem client_error_not_retried:
  assumes "0 \<le> maxRetries"
    and "fn s = (Rejected err, s')"
    and "status err = Some c" and "400 \<le> c" and "c < 500" and "c \<noteq> 429"
  shows "retryWithBackoff fn maxRetries baseDelay rnd s =
           \<lparr>result = Inl (Some err), attempts = 1, delays = [], final = s'\<rparr>"
proof -
  have "client_error err" using assms(3-6) by (simp add: client_error_def)
  then show ?thesis
    unfolding retryWithBackoff_def using assms(1,2) by (simp add: retry_loop_rethrow)
qed

text \<open>Claim C2 on a request answered 404.\<close>

theorem client_error_not_retried_witness:
  "retryWithBackoff missing_page 3 1000 no_jitter () =
     \<lparr>result = Inl (Some not_found), attempts = 1, delays = [], final = ()\<rparr>"
  using client_error_not_retried[of 3 missing_page "()" not_found "()" 404 1000 no_jitter]
  by (simp add: missing_page_def not_found_def)

lemma flaky_run:
  "delays (retryWithBackoff flaky 3 1000 top_jitter 0) =
     [backoff_delay 1000 0 (1 - 1 / 2 ^ 52), backoff_delay 1000 1 (1 - 1 / 2 ^ 52)]"
  by (simp add: retryWithBackoff_def retry_loop.simps flaky_def unavailable_def client_error_def
      top_jitter_def)

text \<open>
  Claim C3, as stated, fails at the upper bound, which is strict: a request that fails
  twice with 503, base delay 1000, and a jitter source that returns \<open>1 - 2 ^ - 52\<close>. The
  second delay is the double sum of 2000 and 999.9999999999998, which is 3000: not less
  than \<open>1000 * 2 ^ 1 + 1000\<close>.
\<close>

theorem rounded_delay_reaches_upper_bound:
  "\<not> delays (retryWithBackoff flaky 3 1000 top_jitter 0) ! (2 - 1) < 1000 * 2 ^ (2 - 1) + 1000"
proof -
  have "delays (retryWithBackoff flaky 3 1000 top_jitter 0) ! (2 - 1) =
      backoff_delay 1000 1 (1 - 1 / 2 ^ 52)"
    by (simp add: flaky_run)
  then have "delays (retryWithBackoff flaky 3 1000 top_jitter 0) ! (2 - 1) = 3000"
    by (simp only: second_delay)
  then show ?thesis by simp
qed

text \<open>
  Claim C3, amended: with a jitter source in [0, 1), the \<open>N\<close>-th delay of one call (the
  one after the \<open>N\<close>-th failed attempt) is at least \<open>baseDelay * 2 ^ (N - 1)\<close> and
  at most that plus 1000, whenever \<open>2 ^ (N - 1)\<close> and these two bounds are finite
  doubles.
\<close>

theorem backoff_delay_bounds:
  assumes "\<forall>k. 0 \<le> rnd k \<and> rnd k < 1"
    and "1 \<le> N" and "N \<le> length (delays (retryWithBackoff fn maxRetries baseDelay rnd s))"
    and "is_double (2 ^ (N - 1))"
    and "is_double (baseDelay * 2 ^ (N - 1))"
    and "is_double (baseDelay * 2 ^ (N - 1) + 1000)"
  shows "baseDelay * 2 ^ (N - 1) \<le> delays (retryWithBackoff fn maxRetries baseDelay rnd s) ! (N - 1) \<and>
         delays (retryWithBackoff fn maxRetries baseDelay rnd s) ! (N - 1) \<le> baseDelay * 2 ^ (N - 1) + 1000"
proof -
  obtain n where n: "delays (retryWithBackoff fn maxRetries baseDelay rnd s) =
      map (\<lambda>k. backoff_delay baseDelay k (rnd k)) [0 ..< n]"
    using retry_loop_delays[of fn maxRetries baseDelay rnd 0 None 0 "[]" s]
    by (auto simp: retryWithBackoff_def)
  from assms(2,3) have "N - 1 < n" by (simp add: n)
  then have "delays (retryWithBackoff fn maxRetries baseDelay rnd s) ! (N - 1) =
      backoff_delay baseDelay (N - 1) (rnd (N - 1))" by (simp add: n)
  with backoff_delay_range[of "rnd (N - 1)" baseDelay "N - 1"] assms(1,5,6) show ?thesis
    by simp
qed

text \<open>
  The amended claim C3 on the same run, at the second delay: 2 and both bounds, 2000 and
  3000, are doubles.
\<close>

theorem backoff_delay_bounds_witness:
  "2000 \<le> delays (retryWithBackoff flaky 3 1000 top_jitter 0) ! 1 \<and>
   delays (retryWithBackoff flaky 3 1000 top_jitter 0) ! 1 \<le> 3000"
proof -
  have j: "\<forall>k. 0 \<le> top_jitter k \<and> top_jitter k < 1" by (simp add: top_jitter_def)
  have l: "2 \<le> length (delays (retryWithBackoff flaky 3 1000 top_jitter 0))"
    by (simp add: flaky_run)
  have d: "is_double (2 ^ (2 - 1))" "is_double (1000 * 2 ^ (2 - 1))"
    "is_double (1000 * 2 ^ (2 - 1) + 1000)"
    using is_double_int[of 2] is_double_int[of 2000] is_double_int[of 3000] by simp_all
  from backoff_delay_bounds[OF j _ l d] show ?thesis by simp
qed

section \<open>Properties of the HTTP client under retry\<close>

lemma invalidations_append: "invalidations (xs @ ys) = invalidations xs + invalidations ys"
  by (induction xs) (simp_all add: invalidations_def)

lemma saw_401_append: "saw_401 (xs @ ys) = saw_401 xs + saw_401 ys"
  by (simp add: saw_401_def)

lemma response_error_interceptor_401:
  "response_error_interceptor \<lparr>status = Some 401, message = msg, config_retry = False\<rparr> w =
     (\<lparr>status = Some 401, message = msg, config_retry = True\<rparr>,
      w\<lparr>token := None,
        trace := trace w @ RemoveToken # (if pathname w \<noteq> ''/login'' then [Redirect ''/login''] else [])\<rparr>)"
  by (simp add: response_error_interceptor_def)

lemma response_error_interceptor_other:
  "status err \<noteq> Some 401 \<Longrightarrow>
   snd (response_error_interceptor err w) = w \<and>
   status (fst (response_error_interceptor err w)) = status err"
  by (simp add: response_error_interceptor_def Let_def split: option.splits)

text \<open>
  One request removes the token exactly when its reply is a 401, and then it is rejected
  with an error the retry loop does not retry on.
\<close>

lemma httpClient_get_effects:
  assumes "httpClient_get server w = (out, w')"
  shows "\<exists>new. trace w' = trace w @ new \<and> invalidations new = saw_401 new \<and> saw_401 new \<le> 1 \<and>
           (saw_401 new = 1 \<longrightarrow> token w' = None \<and> (\<exists>e. out = Rejected e \<and> client_error e))"
proof (cases "server (sent w) (request_interceptor w)")
  case NoResponse
  with assms response_error_interceptor_other[of "\<lparr>status = None, message = ''Network Error'', config_retry = False\<rparr>"
      "w\<lparr>sent := Suc (sent w), trace := trace w @ [SendRequest (request_interceptor w), Receive NoResponse]\<rparr>"]
  have "trace w' = trace w @ [SendRequest (request_interceptor w), Receive NoResponse]"
    by (auto simp: httpClient_get_def Let_def split: prod.splits)
  then show ?thesis by (intro exI[of _ "[SendRequest (request_interceptor w), Receive NoResponse]"])
      (simp add: invalidations_def saw_401_def)
next
  case (Response c body)
  let ?w1 = "w\<lparr>sent := Suc (sent w), trace := trace w @ [SendRequest (request_interceptor w), Receive (Response c body)]\<rparr>"
  show ?thesis
  proof (cases "c = 401")
    case True
    with assms Response have "out = Rejected \<lparr>status = Some 401, message = ''Request failed'', config_retry = True\<rparr>"
      and "w' = ?w1\<lparr>token := None,
        trace := trace ?w1 @ RemoveToken # (if pathname w \<noteq> ''/login'' then [Redirect ''/login''] else [])\<rparr>"
      by (auto simp: httpClient_get_def Let_def response_error_interceptor_401)
    with True show ?thesis
      by (intro exI[of _ "[SendRequest (request_interceptor w), Receive (Response c body), RemoveToken] @
             (if pathname w \<noteq> ''/login'' then [Redirect ''/login''] else [])"])
         (simp add: invalidations_def saw_401_def client_error_def)
  next
    case False
    with assms Response response_error_interceptor_other[of "\<lparr>status = Some c, message = ''Request failed'', config_retry = False\<rparr>" ?w1]
    have "trace w' = trace w @ [SendRequest (request_interceptor w), Receive (Response c body)]"
      by (auto simp: httpClient_get_def Let_def split: prod.splits if_splits)
    with False show ?thesis
      by (intro exI[of _ "[SendRequest (request_interceptor w), Receive (Response c body)]"])
        (simp add: invalidations_def saw_401_def)
  qed
qed

lemma retry_httpClient_effects:
  "\<exists>new. trace (final (retry_loop (httpClient_get server) m b rnd a le c ds w)) = trace w @ new \<and>
         invalidations new = saw_401 new \<and> saw_401 new \<le> 1 \<and>
         (saw_401 new = 1 \<longrightarrow> token (final (retry_loop (httpClient_get server) m b rnd a le c ds w)) = None)"
proof (induction "httpClient_get server" m b rnd a le c ds w rule: retry_loop.induct)
  case (1 m b rnd a le c ds w)
  show ?case
  proof (cases rule: retry_loop_cases[where a=a and m=m and fn="httpClient_get server" and s=w])
    case Exhausted
    then show ?thesis
      by (intro exI[of _ "[]"]) (simp add: retry_loop_exhausted invalidations_def saw_401_def)
  next
    case (Fulfilled v w')
    from httpClient_get_effects[OF Fulfilled(2)] show ?thesis
      using Fulfilled by (auto simp: retry_loop_fulfilled)
  next
    case (Rethrow e w')
    from httpClient_get_effects[OF Rethrow(2)] show ?thesis
      using Rethrow by (auto simp: retry_loop_rethrow)
  next
    case (Again e w')
    from httpClient_get_effects[OF Again(2)] Again(3) obtain new1 where
      n1: "trace w' = trace w @ new1" "invalidations new1 = saw_401 new1" "saw_401 new1 = 0"
      by (metis outcome.inject(2) le_neq_implies_less less_one)
    have step: "retry_loop (httpClient_get server) m b rnd a le c ds w =
        retry_loop (httpClient_get server) m b rnd (Suc a) (Some e) (Suc c) (ds @ [backoff_delay b a (rnd a)]) w'"
      using Again by (rule retry_loop_again)
    from "1.hyps"[OF Again(1) Again(2)[symmetric] refl Again(3,4)] obtain new2 where
      n2: "trace (final (retry_loop (httpClient_get server) m b rnd (Suc a) (Some e) (Suc c) (ds @ [backoff_delay b a (rnd a)]) w')) = trace w' @ new2"
        "invalidations new2 = saw_401 new2" "saw_401 new2 \<le> 1"
        "saw_401 new2 = 1 \<longrightarrow> token (final (retry_loop (httpClient_get server) m b rnd (Suc a) (Some e) (Suc c) (ds @ [backoff_delay b a (rnd a)]) w')) = None"
      by blast
    show ?thesis
      unfolding step
      by (intro exI[of _ "new1 @ new2"]) (use n1 n2 in \<open>simp add: invalidations_append saw_401_append\<close>)
  qed
qed

lemma expiring_run_final:
  "final (retryWithBackoff (httpClient_get expiring_server) 3 1000 no_jitter logged_in) =
     \<lparr>token = None, pathname = ''/dashboard'', sent = 3,
      trace = [SendRequest (Some ''Bearer t0''), Receive (Response 500 ''busy''),
             SendRequest (Some ''Bearer t0''), Receive (Response 500 ''busy''),
             SendRequest (Some ''Bearer t0''), Receive (Response 401 ''expired''),
             RemoveToken, Redirect ''/login'']\<rparr>"
  by (simp add: retryWithBackoff_def retry_loop.simps httpClient_get_def expiring_server_def logged_in_def
      request_interceptor_def response_error_interceptor_def client_error_def Let_def)

text \<open>
  Claim C4: in one call of \<open>retryWithBackoff\<close> on a request of the HTTP client, the token
  is removed at most once; at most one attempt sees a 401, and when one does the token is
  removed exactly once and is absent afterwards.
\<close>

theorem session_invalidated_once:
  "invalidations (new_effects w (final (retryWithBackoff (httpClient_get server) maxRetries baseDelay rnd w))) \<le> 1 \<and>
   saw_401 (new_effects w (final (retryWithBackoff (httpClient_get server) maxRetries baseDelay rnd w))) \<le> 1 \<and>
   (0 < saw_401 (new_effects w (final (retryWithBackoff (httpClient_get server) maxRetries baseDelay rnd w))) \<longrightarrow>
      invalidations (new_effects w (final (retryWithBackoff (httpClient_get server) maxRetries baseDelay rnd w))) = 1 \<and>
      token (final (retryWithBackoff (httpClient_get server) maxRetries baseDelay rnd w)) = None)"
proof -
  obtain new where
    "trace (final (retryWithBackoff (httpClient_get server) maxRetries baseDelay rnd w)) = trace w @ new"
    "invalidations new = saw_401 new" "saw_401 new \<le> 1"
    "saw_401 new = 1 \<longrightarrow> token (final (retryWithBackoff (httpClient_get server) maxRetries baseDelay rnd w)) = None"
    using retry_httpClient_effects[of server maxRetries baseDelay rnd 0 None 0 "[]" w]
    unfolding retryWithBackoff_def by blast
  then show ?thesis by (auto simp: new_effects_def)
qed

text \<open>Claim C4 on a server that answers 500 twice and then 401.\<close>

theorem session_invalidated_once_witness:
  "saw_401 (new_effects logged_in (final (retryWithBackoff (httpClient_get expiring_server) 3 1000 no_jitter logged_in))) = 1 \<and>
   invalidations (new_effects logged_in (final (retryWithBackoff (httpClient_get expiring_server) 3 1000 no_jitter logged_in))) = 1 \<and>
   token (final (retryWithBackoff (httpClient_get expiring_server) 3 1000 no_jitter logged_in)) = None"
proof -
  have l: "trace logged_in = []" by (simp add: logged_in_def)
  show ?thesis
    using session_invalidated_once[of logged_in expiring_server 3 1000 no_jitter]
    by (simp add: expiring_run_final new_effects_def saw_401_def l)
qed


section \<open>Properties of the token check\<close>



text \<open>A token that does not decode is removed from the store, and only such a token.\<close>

lemma isAuthenticated_removes_malformed:
  "token (snd (isAuthenticated decode currentTime w)) =
     (case token w of
        None \<Rightarrow> None
      | Some t \<Rightarrow> if t \<noteq> [] \<and> decode t = Throws then None else Some t)"
  by (simp add: isAuthenticated_def split: option.splits token_data.splits)

section \<open>Properties of the dashboard's data functions\<close>

text \<open>
  Claim C6: when the health probe does not report healthy, \<open>loadDashboardData\<close> leaves
  both collections empty, stores its error message, and issues no request but the probe.
\<close>

theorem unhealthy_probe_clears_collections:
  assumes "\<not> checkBackendHealth health"
  shows "favorites (fst (loadDashboardData health favoritesData passesData now st)) = [] \<and>
         passes (fst (loadDashboardData health favoritesData passesData now st)) = [] \<and>
         error (fst (loadDashboardData health favoritesData passesData now st)) =
           Some ''Backend service is not available. Please check if the server is running.'' \<and>
         snd (loadDashboardData health favoritesData passesData now st) = [GetHealth]"
  using assms by (simp add: loadDashboardData_def Let_def)

text \<open>Claim C6 on a probe answered 200 with status \<open>degraded\<close>, over a dashboard holding data.\<close>

theorem unhealthy_probe_clears_collections_witness:
  "favorites (fst (loadDashboardData degraded (Fulfilled [iss]) (Fulfilled [high_pass]) 2000 stale)) = [] \<and>
   passes (fst (loadDashboardData degraded (Fulfilled [iss]) (Fulfilled [high_pass]) 2000 stale)) = [] \<and>
   snd (loadDashboardData degraded (Fulfilled [iss]) (Fulfilled [high_pass]) 2000 stale) = [GetHealth]"
proof -
  have "\<not> checkBackendHealth degraded"
    by (simp add: checkBackendHealth_def degraded_def)
  from unhealthy_probe_clears_collections[OF this, of "Fulfilled [iss]" "Fulfilled [high_pass]" 2000 stale]
  show ?thesis by simp
qed

text \<open>
  Claim C7: after a healthy probe, when one of the two fetches is rejected and the other
  fulfilled, the collection of the rejected one is empty, the other collection is the
  fetched data, and \<open>lastUpdate\<close> is set to the current time.
\<close>

theorem partial_failure_keeps_other_collection:
  assumes "checkBackendHealth health"
  shows "(favoritesData = Rejected e \<and> passesData = Fulfilled ps \<longrightarrow>
            favorites (fst (loadDashboardData health favoritesData passesData now st)) = [] \<and>
            passes (fst (loadDashboardData health favoritesData passesData now st)) = ps \<and>
            lastUpdate (fst (loadDashboardData health favoritesData passesData now st)) = Some now) \<and>
         (favoritesData = Fulfilled fs \<and> passesData = Rejected e \<longrightarrow>
            favorites (fst (loadDashboardData health favoritesData passesData now st)) = fs \<and>
            passes (fst (loadDashboardData health favoritesData passesData now st)) = [] \<and>
            lastUpdate (fst (loadDashboardData health favoritesData passesData now st)) = Some now)"
  using assms by (simp add: loadDashboardData_def Let_def)

text \<open>Claim C7 with the favorites fetch failing, and with the passes fetch failing.\<close>

theorem partial_failure_keeps_other_collection_witness:
  "favorites (fst (loadDashboardData healthy (Rejected server_error) (Fulfilled [high_pass]) 2000 stale)) = [] \<and>
   passes (fst (loadDashboardData healthy (Rejected server_error) (Fulfilled [high_pass]) 2000 stale)) = [high_pass] \<and>
   lastUpdate (fst (loadDashboardData healthy (Rejected server_error) (Fulfilled [high_pass]) 2000 stale)) = Some 2000 \<and>
   favorites (fst (loadDashboardData healthy (Fulfilled [iss]) (Rejected server_error) 2000 stale)) = [iss] \<and>
   passes (fst (loadDashboardData healthy (Fulfilled [iss]) (Rejected server_error) 2000 stale)) = []"
proof -
  have h: "checkBackendHealth healthy"
    by (simp add: checkBackendHealth_def healthy_def)
  from partial_failure_keeps_other_collection[OF h, of "Rejected server_error" server_error
      "Fulfilled [high_pass]" "[high_pass]" 2000 stale "[]"]
    partial_failure_keeps_other_collection[OF h, of "Fulfilled [iss]" server_error
      "Rejected server_error" "[]" 2000 stale "[iss]"]
  show ?thesis by simp
qed

text \<open>With both fetches fulfilled, both collections are the fetched data.\<close>

lemma load_replaces_both:
  "checkBackendHealth health \<Longrightarrow>
   favorites (fst (loadDashboardData health (Fulfilled fs) (Fulfilled ps) now st)) = fs \<and>
   passes (fst (loadDashboardData health (Fulfilled fs) (Fulfilled ps) now st)) = ps"
  by (simp add: loadDashboardData_def Let_def)

section \<open>Properties of the refresh entry point\<close>

text \<open>The state reached by the session \<open>rearmed_and_clicked\<close>: one request in flight.\<close>

lemma rearmed_state:
  "run rearmed_and_clicked mounted =
     \<lparr>dash = \<lparr>favorites = [iss], passes = [], loading = False, passesLoading = False,
              refreshing = True, error = None, backendHealthy = True, lastUpdate = Some 1000,
              autoRefresh = True\<rparr>,
      timer = Some [iss], inflight = 1, load_pending = False\<rparr>"
  by (simp add: run_def rearmed_and_clicked_def mounted_def loadDashboardData_def Let_def
      checkBackendHealth_def healthy_def enter_refresh_def refreshPositions_begin_def)

text \<open>
  Claim C8, as stated, fails: after that session a timer tick arrives while the request
  started by the button is still pending, and a second request is in flight.
\<close>

theorem tick_overlaps_pending_refresh:
  "\<not> inflight (run (rearmed_and_clicked @ [Tick]) mounted) \<le> 1"
proof -
  have "run (rearmed_and_clicked @ [Tick]) mounted = step Tick (run rearmed_and_clicked mounted)"
    by (simp add: run_def)
  then show ?thesis
    by (simp add: rearmed_state enter_refresh_def refreshPositions_begin_def)
qed

text \<open>
  Claim C8, amended: a press of the refresh button while \<open>refreshing\<close> is set starts
  nothing and leaves the state as it is (it is dropped, not queued); a timer tick is not
  held back by a pending refresh: whenever the favorites its callback holds are not
  empty, it starts one more request.
\<close>

theorem click_dropped_tick_not_guarded:
  "(refreshing (dash s) \<longrightarrow> step Click s = s) \<and>
   (timer s = Some seen \<and> seen \<noteq> [] \<longrightarrow> inflight (step Tick s) = Suc (inflight s))"
  by (simp add: enter_refresh_def refreshPositions_begin_def)

text \<open>The amended claim C8 in the state reached by the session above.\<close>

theorem click_dropped_tick_not_guarded_witness:
  "step Click (run rearmed_and_clicked mounted) = run rearmed_and_clicked mounted \<and>
   inflight (step Tick (run rearmed_and_clicked mounted)) = 2"
  using click_dropped_tick_not_guarded[of "run rearmed_and_clicked mounted" "[iss]"]
  by (simp add: rearmed_state)

text \<open>
  The guard of \<open>refreshPositions\<close> is on the value of \<open>favorites\<close> that the running
  closure holds. For a press of the button that value is the current collection; for a
  tick it is the collection of the render that armed the timer.
\<close>

lemma refresh_guard_on_value_read:
  "refreshPositions [] updatedFavorites now st = (st, [])"
  by (simp add: refreshPositions_def refreshPositions_begin_def)

lemma click_skipped_without_favorites:
  "favorites (dash s) = [] \<Longrightarrow> step Click s = s"
  by (simp add: enter_refresh_def refreshPositions_begin_def)

lemma tick_skipped_when_callback_holds_none:
  "timer s = Some [] \<Longrightarrow> step Tick s = s"
  by (simp add: enter_refresh_def refreshPositions_begin_def)

text \<open>The state reached by the session \<open>emptied_behind_timer\<close>.\<close>

lemma emptied_state:
  "run emptied_behind_timer mounted =
     \<lparr>dash = \<lparr>favorites = [], passes = [], loading = False, passesLoading = False,
              refreshing = False, error = None, backendHealthy = True, lastUpdate = Some 2000,
              autoRefresh = True\<rparr>,
      timer = Some [iss], inflight = 0, load_pending = False\<rparr>"
proof -
  have "run emptied_behind_timer mounted =
      step (Finish (Fulfilled []) 2000) (run rearmed_and_clicked mounted)"
    by (simp add: run_def emptied_behind_timer_def)
  then show ?thesis
    by (simp add: rearmed_state refreshPositions_resume_def)
qed

text \<open>
  Claim C10 at a failing input: the favorites collection is empty and nothing is in
  flight, but the timer was re-armed while the collection held one favorite, and its
  callback still holds that one. The tick does not return at once: it sets
  \<open>refreshing\<close> and issues the request, and when the request ends \<open>favorites\<close> and
  \<open>lastUpdate\<close> have changed.
\<close>

theorem stale_tick_refreshes_empty_collection:
  "favorites (dash (run emptied_behind_timer mounted)) = [] \<and>
   inflight (run emptied_behind_timer mounted) = 0 \<and>
   lastUpdate (dash (run emptied_behind_timer mounted)) = Some 2000 \<and>
   timer (run emptied_behind_timer mounted) = Some [iss] \<and>
   inflight (step Tick (run emptied_behind_timer mounted)) = 1 \<and>
   refreshing (dash (step Tick (run emptied_behind_timer mounted))) \<and>
   snd (refreshPositions [iss] (Fulfilled [iss]) 3000 (dash (run emptied_behind_timer mounted))) =
     [GetFavorites] \<and>
   favorites (dash (step (Finish (Fulfilled [iss]) 3000)
     (step Tick (run emptied_behind_timer mounted)))) = [iss] \<and>
   lastUpdate (dash (step (Finish (Fulfilled [iss]) 3000)
     (step Tick (run emptied_behind_timer mounted)))) = Some 3000"
  by (simp add: emptied_state enter_refresh_def refreshPositions_begin_def
      refreshPositions_resume_def refreshPositions_def iss_def)

text \<open>With favorites to refresh, the call issues the request and takes over its result.\<close>

lemma refresh_with_favorites:
  "seen \<noteq> [] \<Longrightarrow>
   refreshPositions seen (Fulfilled fs) now st =
     (st\<lparr>refreshing := False, favorites := fs, lastUpdate := Some now\<rparr>, [GetFavorites])"
  by (simp add: refreshPositions_def refreshPositions_begin_def refreshPositions_resume_def)

section \<open>Properties of the derived views\<close>

text \<open>
  The satellite view never writes to an array that existed before the call, and neither
  does the pass view when one of its filters is switched on: the sort then works on the
  copy that \<open>filter\<close> made.
\<close>

lemma satellites_view_keeps_store:
  "take (length h) (snd (filteredAndSortedSatellites pf v favorites_ref h)) = h"
  by (simp add: filteredAndSortedSatellites_def Array_filter_def Array_sort_def)

lemma passes_view_keeps_store_when_filtering:
  "showOnlyVisible v \<or> passFilter v \<noteq> ''all'' \<Longrightarrow>
   take (length h) (snd (filteredAndSortedPasses pf v passes_ref h)) = h"
  by (auto simp: filteredAndSortedPasses_def Array_filter_def Array_sort_def)

text \<open>
  Claim C9 at a failing input: with no filter switched on, \<open>filtered\<close> is the stored
  \<open>passes\<close> array itself, and sorting by elevation reorders that array in place. The
  store holds the single array \<open>[low_pass, high_pass]\<close> at reference 0; after the call
  the same reference holds \<open>[high_pass, low_pass]\<close>.
\<close>

theorem passes_sorted_in_place:
  "filteredAndSortedPasses pf by_elevation 0 [[low_pass, high_pass]] =
     (0, [[high_pass, low_pass]]) \<and>
   [high_pass, low_pass] \<noteq> [low_pass, high_pass]"
  by (simp add: filteredAndSortedPasses_def by_elevation_def Array_sort_def sort_by_def
      pass_compare_def low_pass_def high_pass_def)

end
